theory Spec2Isabelle
  imports Complex_Main "HOL-Library.Char_ord" "HOL-Library.List_Lexorder"
begin

section \<open>Data model (types/github.ts)\<close>

text \<open>
  JavaScript strings are modelled as Isabelle strings, restricted to code units below 256.
  Integer-valued \<open>number\<close> fields (ids, counts, byte counts) are \<open>int\<close> or \<open>nat\<close>;
  a \<open>number\<close> that results from a division is a \<open>number\<close> value below, in which
  the double arithmetic of the runtime is idealised by exact rational arithmetic.
\<close>

datatype number = NaN | PosInfinity | NegInfinity | Num rat

text \<open>
  What a \<open>try\<close> block can catch: an \<open>ApiError\<close> with its message and status, or an
  exception of the runtime that is not an \<open>ApiError\<close>.
\<close>

datatype thrown = ApiError string int | TypeError | RangeError

text \<open>The account object carried by \<open>Commit['author']\<close> and \<open>Commit['committer']\<close>.\<close>

record user =
  login :: string
  user_id :: int
  avatar_url :: string
  html_url :: string

text \<open>\<open>Commit['commit']['author']\<close> and \<open>Commit['commit']['committer']\<close>.\<close>

record actor =
  name :: string
  email :: string
  date :: string

text \<open>\<open>Commit['commit']\<close>.\<close>

record commitData =
  message :: string
  commit_author :: actor
  commit_committer :: actor

record commit =
  sha :: string
  commit :: commitData
  author :: "user option"
  committer :: "user option"
  commit_html_url :: string

text \<open>\<open>Contributor\<close>: the four account fields and the lifetime count.\<close>

record contributor = user +
  contributions :: nat

text \<open>
  \<open>RepositoryDetails\<close>; the fields that are only displayed (description, counters,
  timestamps, default branch) are left out.
\<close>

record repositoryDetails =
  repo_id :: int
  repo_name :: string
  full_name :: string

section \<open>User impact (components/repository/user-impact.tsx)\<close>

text \<open>
  The keys of the \<open>Map<string | number, ...>\<close> named \<open>authorCounts\<close>. A number and a
  string are never the same key.
\<close>

datatype mapKey = NumKey int | StrKey string

text \<open>
  The key computed for one commit in the \<open>forEach\<close> body, followed by the test
  \<open>if (key)\<close>: \<open>None\<close> stands for a falsy key (\<open>null\<close>, \<open>0\<close> or the empty
  string), for which the commit is skipped.
\<close>

definition commitKey :: "commit \<Rightarrow> mapKey option" where
  "commitKey c =
     (case author c of
        Some a \<Rightarrow>
          (if user_id a \<noteq> 0 then Some (NumKey (user_id a))
           else if login a \<noteq> [] then Some (StrKey (login a))
           else None)
      | None \<Rightarrow>
          (let commitAuthorEmail = email (commit_author (commit c))
           in if commitAuthorEmail \<noteq> [] then Some (StrKey commitAuthorEmail) else None))"

text \<open>The values of \<open>authorCounts\<close>.\<close>

record authorCount =
  count :: nat
  ac_author :: "user option"
  commitAuthorEmail :: string
  commitAuthorName :: string

text \<open>
  A \<open>Map\<close> is an association list in insertion order. \<open>authorCounts.get(key)\<close> followed by
  either \<open>existing.count += 1\<close> (the entry keeps its position) or
  \<open>authorCounts.set(key, {count: 1, ...})\<close> (a new entry goes last).
\<close>

fun countCommit :: "mapKey \<Rightarrow> commit \<Rightarrow> (mapKey \<times> authorCount) list \<Rightarrow> (mapKey \<times> authorCount) list" where
  "countCommit k c [] =
     [(k, \<lparr>count = 1, ac_author = author c,
           commitAuthorEmail = email (commit_author (commit c)),
           commitAuthorName = name (commit_author (commit c))\<rparr>)]"
| "countCommit k c ((k', e) # m) =
     (if k' = k then (k', e\<lparr>count := count e + 1\<rparr>) # m
      else (k', e) # countCommit k c m)"

text \<open>The body of \<open>commits.forEach\<close>, and the whole loop.\<close>

definition forEachCommit :: "(mapKey \<times> authorCount) list \<Rightarrow> commit \<Rightarrow> (mapKey \<times> authorCount) list" where
  "forEachCommit m c = (case commitKey c of None \<Rightarrow> m | Some k \<Rightarrow> countCommit k c m)"

definition authorCounts :: "commit list \<Rightarrow> (mapKey \<times> authorCount) list" where
  "authorCounts commits = foldl forEachCommit [] commits"

record contributorStats =
  stat_login :: string
  stat_name :: string
  stat_avatar_url :: "string option"
  stat_html_url :: "string option"
  commitCount :: nat
  percentage :: rat
  isAnonymous :: bool

text \<open>\<open>author?.avatar_url || undefined\<close> and its like: \<open>None\<close> is \<open>undefined\<close>.\<close>

definition orUndefined :: "string \<Rightarrow> string option" where
  "orUndefined s = (if s \<noteq> [] then Some s else None)"

text \<open>The function given to \<open>.map\<close>; \<open>totalCommits\<close> is \<open>commits.length\<close>.\<close>

definition toStats :: "nat \<Rightarrow> authorCount \<Rightarrow> contributorStats" where
  "toStats totalCommits e =
     (case ac_author e of
        None \<Rightarrow>
          \<lparr>stat_login = commitAuthorEmail e,
           stat_name = commitAuthorName e,
           stat_avatar_url = None,
           stat_html_url = None,
           commitCount = count e,
           percentage = (if totalCommits > 0 then (of_nat (count e) / of_nat totalCommits) * 100 else 0),
           isAnonymous = True\<rparr>
      | Some a \<Rightarrow>
          \<lparr>stat_login = login a,
           stat_name = login a,
           stat_avatar_url = orUndefined (avatar_url a),
           stat_html_url = orUndefined (html_url a),
           commitCount = count e,
           percentage = (if totalCommits > 0 then (of_nat (count e) / of_nat totalCommits) * 100 else 0),
           isAnonymous = False\<rparr>)"

text \<open>
  \<open>Array.prototype.sort\<close> is a stable sort; with the comparator
  \<open>(a, b) => b.commitCount - a.commitCount\<close> it sorts by descending \<open>commitCount\<close>.
\<close>

definition sortByCommitCount :: "contributorStats list \<Rightarrow> contributorStats list" where
  "sortByCommitCount xs = sort_key (\<lambda>s. - int (commitCount s)) xs"

definition contributorStats :: "commit list \<Rightarrow> contributorStats list" where
  "contributorStats commits =
     (if length commits = 0 then []
      else sortByCommitCount (map (toStats (length commits)) (map snd (authorCounts commits))))"

section \<open>Commit timeline (components/repository/commit-timeline.tsx)\<close>






section \<open>Language distribution (components/repository/language-distribution.tsx)\<close>

text \<open>Division and multiplication of doubles, on the values that occur here.\<close>

definition jsDivide :: "nat \<Rightarrow> nat \<Rightarrow> number" where
  "jsDivide a b =
     (if b = 0 then (if a = 0 then NaN else PosInfinity)
      else Num (of_nat a / of_nat b))"

definition jsTimes100 :: "number \<Rightarrow> number" where
  "jsTimes100 x = (case x of Num r \<Rightarrow> Num (r * 100) | other \<Rightarrow> other)"

function showNat :: "nat \<Rightarrow> string" where
  "showNat n =
     (if n < 10 then [char_of (48 + n)]
      else showNat (n div 10) @ [char_of (48 + n mod 10)])"
  by pat_completeness auto
termination
  by (relation "measure (\<lambda>n. n)") auto

text \<open>
  \<open>x.toFixed(1)\<close>: the integer \<open>n\<close> with \<open>n / 10\<close> nearest to \<open>x\<close>, the larger one at a
  tie, printed with one decimal; for a magnitude below \<open>10^21\<close>, which a percentage of
  byte counts always has.
\<close>

definition toFixed1 :: "number \<Rightarrow> string" where
  "toFixed1 x =
     (case x of
        NaN \<Rightarrow> ''NaN''
      | PosInfinity \<Rightarrow> ''Infinity''
      | NegInfinity \<Rightarrow> ''-Infinity''
      | Num r \<Rightarrow>
          (let n = nat \<lfloor>\<bar>r\<bar> * 10 + 1 / 2\<rfloor>
           in (if r < 0 then ''-'' else []) @ showNat (n div 10) @ ''.'' @ showNat (n mod 10)))"

record languageData =
  lang_name :: string
  lang_value :: nat
  lang_percentage :: string

text \<open>
  \<open>RepositoryLanguages\<close> is an object from language name to a count of bytes; it is the
  list of its entries in the order of \<open>Object.entries\<close>, with distinct names. The sort is
  stable, by descending \<open>value\<close>.
\<close>

definition languageData :: "(string \<times> nat) list \<Rightarrow> languageData list" where
  "languageData languages =
     (if length (map fst languages) = 0 then []
      else
        let totalBytes = foldl (\<lambda>sum bytes. sum + bytes) 0 (map snd languages)
        in sort_key (\<lambda>e. - int (lang_value e))
             (map (\<lambda>(language, bytes).
                     \<lparr>lang_name = language, lang_value = bytes,
                      lang_percentage = toFixed1 (jsTimes100 (jsDivide bytes totalBytes))\<rparr>)
                  languages))"

section \<open>API client (lib/api.ts)\<close>

text \<open>
  \<open>String.prototype.trim\<close> removes white space and line terminators at both ends; below 256
  these are the code units 9 to 13, 32 and 160.
\<close>

definition isWhiteSpace :: "char \<Rightarrow> bool" where
  "isWhiteSpace c = ((of_char c :: nat) \<in> {9, 10, 11, 12, 13, 32, 160})"

definition trim :: "string \<Rightarrow> string" where
  "trim s = rev (dropWhile isWhiteSpace (rev (dropWhile isWhiteSpace s)))"

text \<open>
  The endpoint handed to \<open>fetchApi\<close>, with the values that the template string puts into
  the URL; the encoding of the URL is not modelled.
\<close>

datatype request =
    Health
  | Search string
  | Details string string
  | ById number
  | Contributors string string nat nat
  | Issues string string
  | Commits string string nat

text \<open>
  Each client function either throws before \<open>fetchApi\<close> is reached (\<open>Inl\<close>) or calls
  \<open>fetchApi\<close> with one request (\<open>Inr\<close>). \<open>!id\<close> holds of the numbers \<open>0\<close> and \<open>NaN\<close>.

  The parameter \<open>repo\<close> is declared a string, but its callers pass the second element
  of \<open>full_name.split("/")\<close>, which is \<open>undefined\<close> (here \<open>None\<close>) when the name has no
  slash; then \<open>repo.trim()\<close> throws a \<open>TypeError\<close>, unless \<open>!owner.trim()\<close> has already
  decided the disjunction.
\<close>

definition healthCheck :: "thrown + request" where
  "healthCheck = Inr Health"

text \<open>A string of white space only, the empty string included.\<close>

definition whitespaceOnly :: "string \<Rightarrow> bool" where
  "whitespaceOnly s = list_all isWhiteSpace s"

definition searchRepositories :: "string \<Rightarrow> thrown + request" where
  "searchRepositories query =
     (if trim query = [] then Inl (ApiError ''Query parameter is required'' 400)
      else Inr (Search query))"

definition ownerRepoRequired :: "string \<Rightarrow> string option \<Rightarrow> (string \<Rightarrow> request) \<Rightarrow> thrown + request" where
  "ownerRepoRequired owner repo endpoint =
     (if trim owner = [] then Inl (ApiError ''Owner and repo parameters are required'' 400)
      else case repo of
        None \<Rightarrow> Inl TypeError
      | Some r \<Rightarrow>
          (if trim r = [] then Inl (ApiError ''Owner and repo parameters are required'' 400)
           else Inr (endpoint r)))"

definition getRepositoryDetails :: "string \<Rightarrow> string option \<Rightarrow> thrown + request" where
  "getRepositoryDetails owner repo = ownerRepoRequired owner repo (\<lambda>r. Details owner r)"

definition falsy :: "number \<Rightarrow> bool" where
  "falsy x = (x = NaN \<or> x = Num 0)"

definition getRepositoryById :: "number \<Rightarrow> thrown + request" where
  "getRepositoryById i =
     (if falsy i then Inl (ApiError ''Repository ID is required'' 400)
      else Inr (ById i))"

definition getRepositoryContributors :: "string \<Rightarrow> string option \<Rightarrow> nat \<Rightarrow> nat \<Rightarrow> thrown + request" where
  "getRepositoryContributors owner repo perPage page =
     ownerRepoRequired owner repo (\<lambda>r. Contributors owner r perPage page)"

definition getRepositoryIssues :: "string \<Rightarrow> string option \<Rightarrow> thrown + request" where
  "getRepositoryIssues owner repo = ownerRepoRequired owner repo (\<lambda>r. Issues owner r)"

definition getRepositoryCommits :: "string \<Rightarrow> string option \<Rightarrow> nat \<Rightarrow> thrown + request" where
  "getRepositoryCommits owner repo perPage =
     ownerRepoRequired owner repo (\<lambda>r. Commits owner r perPage)"

text \<open>
  \<open>fetchApi\<close> as seen by its caller: the backend answers a request with the data or with
  an \<open>ApiError\<close> (the response's status, or status \<open>0\<close> for a network error). \<open>await\<close> of a
  client call gives the result and the requests that went out.
\<close>

definition await :: "thrown + request \<Rightarrow> (request \<Rightarrow> thrown + 'a) \<Rightarrow> (thrown + 'a) \<times> request list" where
  "await call fetchApi =
     (case call of
        Inl e \<Rightarrow> (Inl e, [])
      | Inr rq \<Rightarrow> (fetchApi rq, [rq]))"

record backend =
  repositoryById :: "request \<Rightarrow> thrown + repositoryDetails"
  repositoryCommits :: "request \<Rightarrow> thrown + commit list"
  repositoryContributors :: "request \<Rightarrow> thrown + contributor list"

section \<open>Repository page (app/repository/[id]/page.tsx)\<close>

text \<open>
  The state of the page: its \<open>useState\<close> cells, the messages given to \<open>toast.error\<close> and
  the targets given to \<open>router.push\<close>, both in order.
\<close>

record pageState =
  repository :: "repositoryDetails option"
  isLoading :: bool
  isNotFound :: bool
  toasts :: "string list"
  pushed :: "string list"

text \<open>The \<open>catch\<close> clause, and the \<open>finally\<close> clause.\<close>

definition catchError :: "thrown \<Rightarrow> 'a pageState_scheme \<Rightarrow> 'a pageState_scheme" where
  "catchError err s =
     (case err of
        ApiError msg status \<Rightarrow>
          (if status = 404 then s\<lparr>isNotFound := True\<rparr>
           else s\<lparr>toasts := toasts s @ [msg], pushed := pushed s @ [''/'']\<rparr>)
      | other \<Rightarrow>
          s\<lparr>toasts := toasts s @ [''Failed to load repository data''], pushed := pushed s @ [''/'']\<rparr>)"

definition finallyClause :: "'a pageState_scheme \<Rightarrow> 'a pageState_scheme" where
  "finallyClause s = s\<lparr>isLoading := False\<rparr>"

text \<open>
  \<open>fetchRepositoryData\<close> up to its \<open>await\<close>, and from there on when the promise settles.
  Nothing in the second part depends on the identifier the cycle was started for.
\<close>

definition fetchRepositoryData_start :: "int \<Rightarrow> 'a pageState_scheme \<Rightarrow> 'a pageState_scheme \<times> (thrown + request)" where
  "fetchRepositoryData_start repoId s = (s\<lparr>isLoading := True\<rparr>, getRepositoryById (Num (of_int repoId)))"

definition fetchRepositoryData_resume :: "thrown + repositoryDetails \<Rightarrow> 'a pageState_scheme \<Rightarrow> 'a pageState_scheme" where
  "fetchRepositoryData_resume settled s =
     (case settled of
        Inr repoDetails \<Rightarrow> finallyClause (s\<lparr>repository := Some repoDetails\<rparr>)
      | Inl err \<Rightarrow> finallyClause (catchError err s))"

text \<open>
  The page over time. \<open>repoId\<close> is \<open>None\<close> where \<open>parseInt\<close> gives \<open>NaN\<close>. The effect runs
  when \<open>repoId\<close> changes; it has no cleanup function. Every cycle that has called
  \<open>fetchApi\<close> is in flight, under the number of its start, until its response arrives.
\<close>

record page = pageState +
  started :: nat
  inFlight :: "(nat \<times> request) list"

datatype event =
    RepoIdChanged "int option"
  | Settled nat "thrown + repositoryDetails"

text \<open>\<open>!repoId\<close>, for \<open>repoId\<close> a number or \<open>null\<close>.\<close>

definition invalidId :: "int option \<Rightarrow> bool" where
  "invalidId repoId = (case repoId of None \<Rightarrow> True | Some i \<Rightarrow> i = 0)"

definition useEffect :: "int option \<Rightarrow> page \<Rightarrow> page" where
  "useEffect repoId p =
     (if invalidId repoId then
        p\<lparr>toasts := toasts p @ [''Invalid repository ID''], pushed := pushed p @ [''/'']\<rparr>
      else
        case fetchRepositoryData_start (case repoId of Some i \<Rightarrow> i | None \<Rightarrow> 0) p of
          (p', Inl err) \<Rightarrow> (finallyClause (catchError err p'))\<lparr>started := started p + 1\<rparr>
        | (p', Inr rq) \<Rightarrow> p'\<lparr>started := started p + 1, inFlight := inFlight p @ [(started p, rq)]\<rparr>)"

fun step :: "page \<Rightarrow> event \<Rightarrow> page" where
  "step p (RepoIdChanged repoId) = useEffect repoId p"
| "step p (Settled k settled) =
     (if k \<in> fst ` set (inFlight p)
      then (fetchRepositoryData_resume settled p)\<lparr>inFlight := filter (\<lambda>(j, rq). j \<noteq> k) (inFlight p)\<rparr>
      else p)"

definition mount :: page where
  "mount = \<lparr>repository = None, isLoading = True, isNotFound = False, toasts = [], pushed = [],
            started = 0, inFlight = []\<rparr>"

definition run :: "event list \<Rightarrow> page" where
  "run events = foldl step mount events"

section \<open>Repository page that fetches everything itself (fetchData)\<close>

text \<open>\<open>full_name.split("/")\<close>, and the destructuring \<open>const [owner, repo] = ...\<close>.\<close>

fun splitOn :: "char \<Rightarrow> string \<Rightarrow> string list" where
  "splitOn sep [] = [[]]"
| "splitOn sep (c # cs) =
     (if c = sep then [] # splitOn sep cs
      else case splitOn sep cs of
        [] \<Rightarrow> [[c]]
      | part # parts \<Rightarrow> (c # part) # parts)"

definition ownerRepo :: "string \<Rightarrow> string \<times> string option" where
  "ownerRepo fullName =
     (case splitOn CHR ''/'' fullName of
        [] \<Rightarrow> ([], None)
      | [owner] \<Rightarrow> (owner, None)
      | owner # repo # rest \<Rightarrow> (owner, Some repo))"

record detailState = pageState +
  commits :: "commit list"
  contributors :: "contributor list"

definition perPage :: nat where
  "perPage = 100"

text \<open>
  The \<open>while (hasMore)\<close> loop from its test on, with the current \<open>page\<close> and
  \<open>allContributors\<close>; it gives the contributors, or the error thrown, and the requests sent.
\<close>

function fetchPages :: "(request \<Rightarrow> thrown + contributor list) \<Rightarrow> string \<Rightarrow> string option \<Rightarrow> nat \<Rightarrow> contributor list \<Rightarrow> (thrown + contributor list) \<times> request list" where
  "fetchPages fetchApi owner repo page allContributors =
     (case await (getRepositoryContributors owner repo perPage page) fetchApi of
        (Inl err, sent) \<Rightarrow> (Inl err, sent)
      | (Inr contributorsPage, sent) \<Rightarrow>
          (if length contributorsPage = 0 then (Inr allContributors, sent)
           else if length contributorsPage < perPage then (Inr (allContributors @ contributorsPage), sent)
           else if page + 1 > 10 then (Inr (allContributors @ contributorsPage), sent)
           else case fetchPages fetchApi owner repo (page + 1) (allContributors @ contributorsPage) of
                  (result, sent') \<Rightarrow> (result, sent @ sent')))"
  by pat_completeness auto
termination
  by (relation "measure (\<lambda>(fetchApi, owner, repo, page, allContributors). 10 - page)") auto

declare fetchPages.simps [simp del]

definition fetchData :: "backend \<Rightarrow> int \<Rightarrow> detailState \<Rightarrow> detailState \<times> request list" where
  "fetchData api repoId s0 =
     (let s1 = s0\<lparr>isLoading := True\<rparr> in
      case await (getRepositoryById (Num (of_int repoId))) (repositoryById api) of
        (Inl err, sent1) \<Rightarrow> (finallyClause (catchError err s1), sent1)
      | (Inr repoDetails, sent1) \<Rightarrow>
          (case ownerRepo (full_name repoDetails) of
             (owner, repo) \<Rightarrow>
               (case await (getRepositoryCommits owner repo 100) (repositoryCommits api) of
                  (Inl err, sent2) \<Rightarrow> (finallyClause (catchError err s1), sent1 @ sent2)
                | (Inr commitsData, sent2) \<Rightarrow>
                    (let s2 = s1\<lparr>commits := commitsData\<rparr> in
                     case fetchPages (repositoryContributors api) owner repo 1 [] of
                       (Inl err, sent3) \<Rightarrow>
                         (finallyClause (catchError err s2), sent1 @ sent2 @ sent3)
                     | (Inr allContributors, sent3) \<Rightarrow>
                         (finallyClause (s2\<lparr>repository := Some repoDetails, contributors := allContributors\<rparr>),
                          sent1 @ sent2 @ sent3)))))"

text \<open>The effect of this page, run for one value of \<open>repoId\<close> from start to end.\<close>

definition fetchCycle :: "backend \<Rightarrow> int option \<Rightarrow> detailState \<Rightarrow> detailState \<times> request list" where
  "fetchCycle api repoId s =
     (if invalidId repoId then
        (s\<lparr>toasts := toasts s @ [''Invalid repository ID''], pushed := pushed s @ [''/'']\<rparr>, [])
      else fetchData api (case repoId of Some i \<Rightarrow> i | None \<Rightarrow> 0) s)"


text \<open>
  A backend that holds a sequence of contributor pages: page \<open>i\<close>, counted from 1, is the
  \<open>i\<close>-th of them, and every page after the last is empty.
\<close>

definition servePages :: "contributor list list \<Rightarrow> request \<Rightarrow> thrown + contributor list" where
  "servePages pages rq =
     (case rq of
        Contributors owner repo n i \<Rightarrow> Inr (if 1 \<le> i \<and> i \<le> length pages then pages ! (i - 1) else [])
      | other \<Rightarrow> Inr [])"

text \<open>The records that came back for a list of requests, in the order of the requests.\<close>

definition received :: "(request \<Rightarrow> thrown + contributor list) \<Rightarrow> request list \<Rightarrow> contributor list" where
  "received fetchApi sent =
     concat (map (\<lambda>rq. case fetchApi rq of Inr contributorsPage \<Rightarrow> contributorsPage | Inl err \<Rightarrow> []) sent)"

text \<open>
  The identity key of a contributor record as the specification describes it: the scheme
  of \<open>commitKey\<close> for an account, on the record's own fields. The code computes no such
  key.
\<close>

definition contributorKey :: "contributor \<Rightarrow> mapKey option" where
  "contributorKey c =
     (if user_id c \<noteq> 0 then Some (NumKey (user_id c))
      else if login c \<noteq> [] then Some (StrKey (login c))
      else None)"

section \<open>Components that fetch for themselves (contributors-list.tsx, commit-timeline.tsx)\<close>







text \<open>First occurrences, in order: what "first seen" means for a sequence of keys.\<close>

definition firstSeen :: "'a list \<Rightarrow> 'a list" where
  "firstSeen ks = rev (remdups (rev ks))"


section \<open>Sample data\<close>

definition commitBy :: "string \<Rightarrow> int \<Rightarrow> string \<Rightarrow> commit" where
  "commitBy l i d =
     \<lparr>sha = [],
      commit = \<lparr>message = [],
                commit_author = \<lparr>name = l, email = [], date = []\<rparr>,
                commit_committer = \<lparr>name = l, email = [], date = d\<rparr>\<rparr>,
      author = Some \<lparr>login = l, user_id = i, avatar_url = [], html_url = []\<rparr>,
      committer = None,
      commit_html_url = []\<rparr>"

definition contributorNo :: "int \<Rightarrow> contributor" where
  "contributorNo i = \<lparr>login = [], user_id = i, avatar_url = [], html_url = [], contributions = 1\<rparr>"



definition sampleWindow :: "commit list" where
  "sampleWindow =
     [commitBy ''A'' 1 ''2024-01-02T23:59:59Z'', commitBy ''B'' 2 ''2024-01-03T00:00:01Z'',
      commitBy ''A'' 1 ''2024-01-02T08:00:00Z'', commitBy ''C'' 3 ''2024-01-01T12:00:00Z'',
      commitBy ''B'' 2 ''2024-01-03T09:30:00Z'', commitBy ''A'' 1 ''2024-01-01T07:15:00Z'']"



definition samplePages3 :: "contributor list list" where
  "samplePages3 = [map contributorNo [1..100], map contributorNo [101..200], map contributorNo [201..237]]"

definition samplePages11 :: "contributor list list" where
  "samplePages11 = replicate 11 (map contributorNo [1..100])"

definition pageOf :: "contributor list list \<Rightarrow> nat \<Rightarrow> contributor list" where
  "pageOf pages i = (if 1 \<le> i \<and> i \<le> length pages then pages ! (i - 1) else [])"



section \<open>The impact ranking\<close>

lemma authorCounts_snoc: "authorCounts (cs @ [c]) = forEachCommit (authorCounts cs) c"
  by (simp add: authorCounts_def)

lemma keys_countCommit:
  "map fst (countCommit k c m) = (if k \<in> set (map fst m) then map fst m else map fst m @ [k])"
  by (induction m) force+

lemma firstSeen_snoc:
  "firstSeen (ks @ [k]) = (if k \<in> set ks then firstSeen ks else firstSeen ks @ [k])"
  by (simp add: firstSeen_def)

lemma set_firstSeen: "set (firstSeen ks) = set ks"
  by (simp add: firstSeen_def)

lemma distinct_firstSeen: "distinct (firstSeen ks)"
  by (simp add: firstSeen_def)

lemma map_filter_snoc: "List.map_filter f (xs @ [x]) = List.map_filter f xs @ (case f x of None \<Rightarrow> [] | Some y \<Rightarrow> [y])"
  by (simp add: List.map_filter_def split: option.splits)

lemma keys_authorCounts:
  "map fst (authorCounts cs) = firstSeen (List.map_filter commitKey cs)"
proof (induction cs rule: rev_induct)
  case Nil
  show ?case by (simp add: authorCounts_def firstSeen_def List.map_filter_def)
next
  case (snoc c cs)
  show ?case
  proof (cases "commitKey c")
    case None
    then show ?thesis using snoc
      by (simp add: authorCounts_snoc forEachCommit_def map_filter_snoc)
  next
    case (Some k)
    then show ?thesis using snoc
      by (simp add: authorCounts_snoc forEachCommit_def map_filter_snoc keys_countCommit
          firstSeen_snoc set_firstSeen)
  qed
qed




lemma count_countCommit:
  "list_all (\<lambda>p. 0 < count (snd p)) m \<Longrightarrow> list_all (\<lambda>p. 0 < count (snd p)) (countCommit k c m)"
  by (induction m) auto

lemma count_authorCounts: "list_all (\<lambda>p. 0 < count (snd p)) (authorCounts cs)"
proof (induction cs rule: rev_induct)
  case Nil
  show ?case by (simp add: authorCounts_def)
next
  case (snoc c cs)
  then show ?case
    by (cases "commitKey c") (simp_all add: authorCounts_snoc forEachCommit_def count_countCommit)
qed

lemma map_of_countCommit:
  "map_of (countCommit k c m) k' =
     (if k' = k then
        (case map_of m k of
           None \<Rightarrow> Some \<lparr>count = 1, ac_author = author c,
                         commitAuthorEmail = email (commit_author (commit c)),
                         commitAuthorName = name (commit_author (commit c))\<rparr>
         | Some e \<Rightarrow> Some (e\<lparr>count := count e + 1\<rparr>))
      else map_of m k')"
  by (induction m) auto

lemma count_of_key:
  "map_of (authorCounts cs) k = Some e \<Longrightarrow> count e = length (filter (\<lambda>c. commitKey c = Some k) cs)"
proof (induction cs arbitrary: e rule: rev_induct)
  case Nil
  then show ?case by (simp add: authorCounts_def)
next
  case (snoc c cs)
  show ?case
  proof (cases "commitKey c")
    case None
    with snoc show ?thesis by (simp add: authorCounts_snoc forEachCommit_def)
  next
    case (Some k')
    show ?thesis
    proof (cases "k' = k")
      case False
      with Some snoc show ?thesis
        by (simp add: authorCounts_snoc forEachCommit_def map_of_countCommit)
    next
      case True
      show ?thesis
      proof (cases "map_of (authorCounts cs) k")
        case None
        then have "k \<notin> set (map fst (authorCounts cs))"
          by (simp add: map_of_eq_None_iff)
        then have "k \<notin> set (List.map_filter commitKey cs)"
          by (simp add: keys_authorCounts set_firstSeen del: set_map)
        then have "filter (\<lambda>c. commitKey c = Some k) cs = []"
          by (auto simp: List.map_filter_def filter_empty_conv image_iff)
        with None True Some snoc.prems show ?thesis
          by (auto simp add: authorCounts_snoc forEachCommit_def map_of_countCommit)
      next
        case (Some e')
        with True \<open>commitKey c = Some k'\<close> snoc.prems snoc.IH [OF Some] show ?thesis
          by (auto simp add: authorCounts_snoc forEachCommit_def map_of_countCommit)
      qed
    qed
  qed
qed



lemma commitCount_toStats: "commitCount (toStats n e) = count e"
  by (simp add: toStats_def split: option.splits)



lemma set_contributorStats:
  "set (contributorStats cs) = toStats (length cs) ` snd ` set (authorCounts cs)"
  by (cases cs) (auto simp: contributorStats_def sortByCommitCount_def authorCounts_def)

lemma distinct_keys_authorCounts: "distinct (map fst (authorCounts cs))"
  by (simp add: keys_authorCounts distinct_firstSeen)

lemma entry_count:
  assumes "(k, e) \<in> set (authorCounts cs)"
  shows "count e = length (filter (\<lambda>c. commitKey c = Some k) cs)" and "0 < count e"
proof -
  from assms have "map_of (authorCounts cs) k = Some e"
    by (simp add: distinct_keys_authorCounts)
  then show "count e = length (filter (\<lambda>c. commitKey c = Some k) cs)"
    by (rule count_of_key)
  from assms count_authorCounts [of cs] show "0 < count e"
    by (auto simp: list_all_iff)
qed

lemma impact_ranking:
  "sorted_wrt (\<lambda>a b. commitCount b \<le> commitCount a) (contributorStats cs) \<and>
   filter (\<lambda>s. commitCount s = n) (contributorStats cs)
     = filter (\<lambda>s. commitCount s = n) (map (toStats (length cs)) (map snd (authorCounts cs))) \<and>
   map fst (authorCounts cs) = firstSeen (List.map_filter commitKey cs)"
proof (intro conjI)
  have "sorted (map (\<lambda>s. - int (commitCount s)) (contributorStats cs))"
    by (simp add: contributorStats_def sortByCommitCount_def)
  then show "sorted_wrt (\<lambda>a b. commitCount b \<le> commitCount a) (contributorStats cs)"
    by (simp add: sorted_wrt_map)
  have "filter (\<lambda>s. - int (commitCount s) = - int n) (sort_key (\<lambda>s. - int (commitCount s)) xs)
        = filter (\<lambda>s. - int (commitCount s) = - int n) xs" for xs
    by (rule sort_key_stable)
  then show "filter (\<lambda>s. commitCount s = n) (contributorStats cs)
     = filter (\<lambda>s. commitCount s = n) (map (toStats (length cs)) (map snd (authorCounts cs)))"
    by (cases cs) (simp_all add: contributorStats_def sortByCommitCount_def authorCounts_def)
  show "map fst (authorCounts cs) = firstSeen (List.map_filter commitKey cs)"
    by (rule keys_authorCounts)
qed

text \<open>
  Claim C9. Every impact entry has a \<open>commitCount\<close> of at least 1, and that count is the
  number of commits of the window that resolve to one identity key: an identity without a
  commit in the window has no entry.
\<close>

theorem impact_entries_positive:
  "\<forall>s \<in> set (contributorStats cs).
      1 \<le> commitCount s \<and>
      (\<exists>k. commitCount s = length (filter (\<lambda>c. commitKey c = Some k) cs))"
proof
  fix s assume "s \<in> set (contributorStats cs)"
  then obtain k e where ke: "(k, e) \<in> set (authorCounts cs)" and s: "s = toStats (length cs) e"
    by (auto simp: set_contributorStats)
  from entry_count [OF ke] have n: "commitCount s = length (filter (\<lambda>c. commitKey c = Some k) cs)"
    and pos: "0 < commitCount s"
    by (simp_all only: s commitCount_toStats)
  from pos have "1 \<le> commitCount s" by linarith
  moreover from n have "\<exists>k. commitCount s = length (filter (\<lambda>c. commitKey c = Some k) cs)" ..
  ultimately show
    "1 \<le> commitCount s \<and> (\<exists>k. commitCount s = length (filter (\<lambda>c. commitKey c = Some k) cs))" ..
qed

theorem impact_entries_positive_witness:
  "hd (contributorStats sampleWindow) \<in> set (contributorStats sampleWindow) \<and>
   1 \<le> commitCount (hd (contributorStats sampleWindow)) \<and>
   (\<exists>k. commitCount (hd (contributorStats sampleWindow))
          = length (filter (\<lambda>c. commitKey c = Some k) sampleWindow))"
proof -
  have "hd (contributorStats sampleWindow) \<in> set (contributorStats sampleWindow)" by code_simp
  then show ?thesis using impact_entries_positive [of sampleWindow] by blast
qed



text \<open>
  Claim C7. The impact entries are in descending order of \<open>commitCount\<close>; entries with the
  same \<open>commitCount\<close> stand in the order in which \<open>authorCounts\<close> holds them, which is the
  order in which their identities are first seen in the window. Commits of the identities
  A, B, A, C, B, A (the accounts 1, 2 and 3) rank as A with 3 commits and 50 percent, B
  with 2 and a third of 100, C with 1 and a sixth of 100, shown with one decimal as 50.0,
  33.3 and 16.7; commits of C, B, A, A, B rank as B, A, C, the tie going to B, seen first.
\<close>

theorem impact_ranking_stable:
  "sorted_wrt (\<lambda>a b. commitCount b \<le> commitCount a) (contributorStats cs) \<and>
   filter (\<lambda>s. commitCount s = n) (contributorStats cs)
     = filter (\<lambda>s. commitCount s = n) (map (toStats (length cs)) (map snd (authorCounts cs))) \<and>
   map fst (authorCounts cs) = firstSeen (List.map_filter commitKey cs) \<and>
   List.map_filter commitKey sampleWindow
     = [NumKey 1, NumKey 2, NumKey 1, NumKey 3, NumKey 2, NumKey 1] \<and>
   map (\<lambda>s. (stat_login s, commitCount s, percentage s)) (contributorStats sampleWindow)
     = [(''A'', 3, 50), (''B'', 2, 100 / 3), (''C'', 1, 50 / 3)] \<and>
   map (\<lambda>s. toFixed1 (Num (percentage s))) (contributorStats sampleWindow)
     = [''50.0'', ''33.3'', ''16.7''] \<and>
   map (\<lambda>s. (stat_login s, commitCount s))
       (contributorStats [commitBy ''C'' 3 [], commitBy ''B'' 2 [], commitBy ''A'' 1 [],
                          commitBy ''A'' 1 [], commitBy ''B'' 2 []])
     = [(''B'', 2), (''A'', 2), (''C'', 1)]"
proof -
  have "List.map_filter commitKey sampleWindow
     = [NumKey 1, NumKey 2, NumKey 1, NumKey 3, NumKey 2, NumKey 1]"
    by code_simp
  moreover have "map (\<lambda>s. (stat_login s, commitCount s))
       (contributorStats [commitBy ''C'' 3 [], commitBy ''B'' 2 [], commitBy ''A'' 1 [],
                          commitBy ''A'' 1 [], commitBy ''B'' 2 []])
     = [(''B'', 2), (''A'', 2), (''C'', 1)]"
    by code_simp
  moreover have "map (\<lambda>s. (stat_login s, commitCount s, percentage s)) (contributorStats sampleWindow)
     = [(''A'', 3, 50), (''B'', 2, 100 / 3), (''C'', 1, 50 / 3)]"
    by code_simp
  moreover have "map (\<lambda>s. toFixed1 (Num (percentage s))) (contributorStats sampleWindow)
     = [''50.0'', ''33.3'', ''16.7'']"
    by code_simp
  ultimately show ?thesis using impact_ranking [of cs n] by simp
qed

section \<open>The commit timeline\<close>










section \<open>The language shares\<close>

text \<open>
  Claim C3, at a non-empty mapping whose byte counts are all 0: the total is 0, the
  component does not return the empty list but one entry for each language, and the
  percentage of each is the text \<open>NaN\<close>. Only the mapping without a language gives the
  empty list.
\<close>

theorem languageData_zero_total:
  "languageData [(''HTML'', 0), (''CSS'', 0)] =
     [\<lparr>lang_name = ''HTML'', lang_value = 0, lang_percentage = ''NaN''\<rparr>,
      \<lparr>lang_name = ''CSS'', lang_value = 0, lang_percentage = ''NaN''\<rparr>] \<and>
   languageData [] = []"
  by code_simp

section \<open>The API client\<close>

lemma trim_empty_iff: "trim s = [] \<longleftrightarrow> whitespaceOnly s"
proof (cases "dropWhile isWhiteSpace s")
  case Nil
  have "trim s = []" unfolding trim_def Nil by simp
  moreover from Nil have "whitespaceOnly s"
    by (simp add: whitespaceOnly_def list_all_iff dropWhile_eq_Nil_conv)
  ultimately show ?thesis by simp
next
  case (Cons c cs)
  have "\<not> isWhiteSpace (hd (dropWhile isWhiteSpace s))"
    by (rule hd_dropWhile) (simp add: Cons)
  then have c: "\<not> isWhiteSpace c" by (simp add: Cons)
  have "c \<in> set (dropWhile isWhiteSpace s)" by (simp add: Cons)
  then have "c \<in> set s" by (rule set_dropWhileD)
  with c have "\<not> whitespaceOnly s" by (auto simp: whitespaceOnly_def list_all_iff)
  moreover have "dropWhile isWhiteSpace (rev cs @ [c]) \<noteq> []"
    using c by (simp only: dropWhile_eq_Nil_conv) auto
  then have "trim s \<noteq> []" unfolding trim_def Cons by simp
  ultimately show ?thesis by simp
qed

text \<open>
  Claim C10. The client throws an \<open>ApiError\<close> with status 400, and \<open>fetchApi\<close> is not
  called, when \<open>searchRepositories\<close> gets a query of white space only, when one of the
  operations on an owner and a repository gets an owner or a name of white space only, and
  when \<open>getRepositoryById\<close> gets a falsy id, such as 0.
\<close>

theorem api_rejects_blank_input:
  "(whitespaceOnly query \<longrightarrow>
      await (searchRepositories query) f1 = (Inl (ApiError ''Query parameter is required'' 400), [])) \<and>
   (whitespaceOnly owner \<or> whitespaceOnly repo \<longrightarrow>
      await (getRepositoryDetails owner (Some repo)) f2
        = (Inl (ApiError ''Owner and repo parameters are required'' 400), []) \<and>
      await (getRepositoryContributors owner (Some repo) n i) f3
        = (Inl (ApiError ''Owner and repo parameters are required'' 400), []) \<and>
      await (getRepositoryIssues owner (Some repo)) f4
        = (Inl (ApiError ''Owner and repo parameters are required'' 400), []) \<and>
      await (getRepositoryCommits owner (Some repo) n) f5
        = (Inl (ApiError ''Owner and repo parameters are required'' 400), [])) \<and>
   (falsy x \<longrightarrow>
      await (getRepositoryById x) f6 = (Inl (ApiError ''Repository ID is required'' 400), [])) \<and>
   falsy (Num 0)"
  by (simp add: await_def searchRepositories_def getRepositoryDetails_def getRepositoryContributors_def
      getRepositoryIssues_def getRepositoryCommits_def getRepositoryById_def ownerRepoRequired_def
      trim_empty_iff falsy_def)

theorem api_rejects_blank_input_witness:
  "whitespaceOnly [CHR 0x09, CHR '' ''] \<and>
   await (searchRepositories [CHR 0x09, CHR '' '']) (\<lambda>rq. Inr ())
     = (Inl (ApiError ''Query parameter is required'' 400), []) \<and>
   whitespaceOnly ''  '' \<and>
   await (getRepositoryDetails ''octocat'' (Some ''  '')) (\<lambda>rq. Inr ())
     = (Inl (ApiError ''Owner and repo parameters are required'' 400), []) \<and>
   await (getRepositoryContributors ''octocat'' (Some ''  '') 100 1) (\<lambda>rq. Inr ())
     = (Inl (ApiError ''Owner and repo parameters are required'' 400), []) \<and>
   await (getRepositoryIssues ''octocat'' (Some ''  '')) (\<lambda>rq. Inr ())
     = (Inl (ApiError ''Owner and repo parameters are required'' 400), []) \<and>
   await (getRepositoryCommits ''octocat'' (Some ''  '') 100) (\<lambda>rq. Inr ())
     = (Inl (ApiError ''Owner and repo parameters are required'' 400), []) \<and>
   falsy (Num 0) \<and>
   await (getRepositoryById (Num 0)) (\<lambda>rq. Inr ())
     = (Inl (ApiError ''Repository ID is required'' 400), [])"
proof -
  have a: "whitespaceOnly [CHR 0x09, CHR '' '']" by code_simp
  have b: "whitespaceOnly ''  ''" by code_simp
  have c: "falsy (Num 0)" by (simp add: falsy_def)
  from a b c
    api_rejects_blank_input [of "[CHR 0x09, CHR '' '']" "\<lambda>rq. Inr ()" "''octocat''" "''  ''"
      "\<lambda>rq. Inr ()" 100 1 "\<lambda>rq. Inr ()" "\<lambda>rq. Inr ()" "\<lambda>rq. Inr ()" "Num 0" "\<lambda>rq. Inr ()"]
  show ?thesis by simp
qed

section \<open>The contributor pages\<close>

lemma await_page:
  assumes "trim owner \<noteq> []" and "trim repo \<noteq> []"
  shows "await (getRepositoryContributors owner (Some repo) n i) fetchApi
         = (fetchApi (Contributors owner repo n i), [Contributors owner repo n i])"
  using assms by (simp add: await_def getRepositoryContributors_def ownerRepoRequired_def)

lemma fetchPages_pages:
  assumes o: "trim owner \<noteq> []" and r: "trim repo \<noteq> []"
    and srv: "\<And>i. fetchApi (Contributors owner repo perPage i) = Inr (pageAt i)"
  shows "page \<le> 10 \<Longrightarrow>
     \<exists>k. page \<le> k \<and> k \<le> 10 \<and>
         (\<forall>i. page \<le> i \<and> i < k \<longrightarrow> perPage \<le> length (pageAt i)) \<and>
         (k = 10 \<or> length (pageAt k) < perPage) \<and>
         fetchPages fetchApi owner (Some repo) page acc
           = (Inr (acc @ concat (map pageAt [page..<Suc k])),
              map (\<lambda>i. Contributors owner repo perPage i) [page..<Suc k])"
proof (induction "10 - page" arbitrary: page acc)
  case 0
  then have page: "page = 10" by simp
  have "fetchPages fetchApi owner (Some repo) 10 acc
        = (Inr (acc @ pageAt 10), [Contributors owner repo perPage 10])"
    by (subst fetchPages.simps) (simp add: await_page [OF o r] srv)
  then show ?case unfolding page by (intro exI [of _ 10]) simp
next
  case (Suc n)
  then have lt: "page < 10" by simp
  show ?case
  proof (cases "length (pageAt page) < perPage")
    case True
    have "fetchPages fetchApi owner (Some repo) page acc
          = (Inr (acc @ pageAt page), [Contributors owner repo perPage page])"
      using True by (subst fetchPages.simps) (simp add: await_page [OF o r] srv)
    then show ?thesis using True lt by (intro exI [of _ page]) simp
  next
    case False
    have n: "n = 10 - Suc page" and le: "Suc page \<le> 10" using Suc.hyps(2) by simp_all
    from Suc.hyps(1) [OF n le, of "acc @ pageAt page"] obtain k where
      k: "Suc page \<le> k" "k \<le> 10"
         "\<forall>i. Suc page \<le> i \<and> i < k \<longrightarrow> perPage \<le> length (pageAt i)"
         "k = 10 \<or> length (pageAt k) < perPage" and
      run: "fetchPages fetchApi owner (Some repo) (Suc page) (acc @ pageAt page)
           = (Inr ((acc @ pageAt page) @ concat (map pageAt [Suc page..<Suc k])),
              map (\<lambda>i. Contributors owner repo perPage i) [Suc page..<Suc k])"
      by blast
    have upt: "[page..<Suc k] = page # [Suc page..<Suc k]"
      using k(1) by (simp add: upt_conv_Cons)
    have full: "perPage \<le> length (pageAt page)" using False by simp
    then have nonempty: "pageAt page \<noteq> []" unfolding perPage_def by (cases "pageAt page") simp_all
    have "fetchPages fetchApi owner (Some repo) page acc
          = (Inr (acc @ concat (map pageAt [page..<Suc k])),
             map (\<lambda>i. Contributors owner repo perPage i) [page..<Suc k])"
      using False lt nonempty
      by (subst fetchPages.simps) (simp add: await_page [OF o r] srv run upt del: upt_Suc)
    moreover have "\<forall>i. page \<le> i \<and> i < k \<longrightarrow> perPage \<le> length (pageAt i)"
    proof (intro allI impI)
      fix i assume "page \<le> i \<and> i < k"
      then show "perPage \<le> length (pageAt i)"
        using k(3) False by (cases "i = page") auto
    qed
    ultimately show ?thesis using k by (intro exI [of _ k]) simp
  qed
qed

lemma fetchPages_received:
  "fetchPages fetchApi owner repo page acc = (Inr result, sent) \<Longrightarrow>
     result = acc @ received fetchApi sent"
proof (induction fetchApi owner repo page acc arbitrary: result sent rule: fetchPages.induct)
  case (1 fetchApi owner repo page allContributors)
  show ?case
  proof (cases "await (getRepositoryContributors owner repo perPage page) fetchApi")
    case (Pair res sent1)
    show ?thesis
    proof (cases res)
      case (Inl e)
      with Pair "1.prems" show ?thesis by (subst (asm) fetchPages.simps) simp
    next
      case (Inr contributorsPage)
      from Pair Inr have rcv: "received fetchApi sent1 = contributorsPage"
        by (auto simp: await_def received_def split: sum.splits)
      show ?thesis
      proof (cases "length contributorsPage = 0 \<or> length contributorsPage < perPage \<or> page + 1 > 10")
        case True
        with Pair Inr "1.prems" rcv show ?thesis
          by (subst (asm) fetchPages.simps) (auto split: if_splits)
      next
        case False
        obtain res' sent' where rec:
          "fetchPages fetchApi owner repo (page + 1) (allContributors @ contributorsPage) = (res', sent')"
          by (cases "fetchPages fetchApi owner repo (page + 1) (allContributors @ contributorsPage)")
        with Pair Inr False "1.prems" have res': "res' = Inr result" and sent: "sent = sent1 @ sent'"
          by (subst (asm) fetchPages.simps, simp)+
        from False have c: "length contributorsPage \<noteq> 0" "\<not> length contributorsPage < perPage" "\<not> page + 1 > 10"
          by simp_all
        from "1.IH" [OF Pair [symmetric] Inr c rec [unfolded res']]
        have "result = (allContributors @ contributorsPage) @ received fetchApi sent'" .
        then show ?thesis by (simp add: sent rcv [symmetric] received_def)
      qed
    qed
  qed
qed

lemma servePages_at:
  "servePages pages (Contributors owner repo n i) = Inr (if 1 \<le> i \<and> i \<le> length pages then pages ! (i - 1) else [])"
  by (simp add: servePages_def)

lemma fetchPages_three:
  assumes o: "trim owner \<noteq> []" and r: "trim repo \<noteq> []"
    and sizes: "map length pages = [100, 100, 37]"
  shows "fetchPages (servePages pages) owner (Some repo) 1 []
           = (Inr (concat pages), map (\<lambda>i. Contributors owner repo perPage i) [1, 2, 3])"
proof -
  from sizes obtain p1 p2 p3 where pages: "pages = [p1, p2, p3]"
    and l: "length p1 = 100" "length p2 = 100" "length p3 = 37"
    by (auto simp: map_eq_Cons_conv)
  have 3: "fetchPages (servePages pages) owner (Some repo) 3 acc
           = (Inr (acc @ p3), [Contributors owner repo perPage 3])" for acc
    by (subst fetchPages.simps) (simp add: await_page [OF o r] servePages_at pages l perPage_def)
  have 2: "fetchPages (servePages pages) owner (Some repo) 2 acc
           = (Inr (acc @ p2 @ p3), [Contributors owner repo perPage 2, Contributors owner repo perPage 3])" for acc
    by (subst fetchPages.simps) (simp add: await_page [OF o r] servePages_at pages l perPage_def 3 [unfolded pages])
  show ?thesis
    by (subst fetchPages.simps) (simp add: await_page [OF o r] servePages_at pages l perPage_def 2 [unfolded pages] del: One_nat_def)
qed

lemma fetchPages_ten:
  assumes o: "trim owner \<noteq> []" and r: "trim repo \<noteq> []"
    and len: "10 \<le> length pages" and full: "\<forall>pg \<in> set (take 10 pages). length pg = 100"
  shows "fetchPages (servePages pages) owner (Some repo) 1 []
           = (Inr (concat (take 10 pages)), map (\<lambda>i. Contributors owner repo perPage i) [1..<11])"
    and "length (concat (take 10 pages)) = 1000"
proof -
  define pageAt where "pageAt i = (if 1 \<le> i \<and> i \<le> length pages then pages ! (i - 1) else [])" for i
  have srv: "servePages pages (Contributors owner repo perPage i) = Inr (pageAt i)" for i
    by (simp add: servePages_at pageAt_def)
  have at: "length (pageAt i) = 100" if "1 \<le> i" "i \<le> 10" for i
  proof -
    from that len have "pages ! (i - 1) \<in> set (take 10 pages)"
      by (auto simp: in_set_conv_nth intro!: exI [of _ "i - 1"])
    with full that len show ?thesis by (simp add: pageAt_def)
  qed
  from fetchPages_pages [where fetchApi = "servePages pages" and pageAt = pageAt and page = 1 and acc = "[]", OF o r srv]
  obtain k where
    k: "1 \<le> k" "k \<le> 10" "k = 10 \<or> length (pageAt k) < perPage" and
    run: "fetchPages (servePages pages) owner (Some repo) 1 []
           = (Inr ([] @ concat (map pageAt [1..<Suc k])), map (\<lambda>i. Contributors owner repo perPage i) [1..<Suc k])"
    by auto
  from k at [of k] have k10: "k = 10" by (auto simp: perPage_def)
  have "map pageAt [1..<11] = take 10 pages"
    using len by (intro nth_equalityI) (auto simp: pageAt_def nth_upt simp del: upt_Suc)
  with run show "fetchPages (servePages pages) owner (Some repo) 1 []
           = (Inr (concat (take 10 pages)), map (\<lambda>i. Contributors owner repo perPage i) [1..<11])"
    by (simp add: k10 del: upt_Suc)
  have "replicate (length (map length (take 10 pages))) 100 = map length (take 10 pages)"
    using full by (intro replicate_length_same) auto
  then have "map length (take 10 pages) = replicate 10 100" using len by simp
  then show "length (concat (take 10 pages)) = 1000"
    by (simp add: length_concat sum_list_replicate)
qed

text \<open>
  Claim C5. With an owner and a name that are not blank, and a backend that answers every
  page, the loop asks for the pages 1 to \<open>k\<close> in this order and no other, where \<open>k\<close> is
  the first page with fewer than 100 records (an empty one included), or 10 when the pages
  1 to 9 are all full; the result is these pages one after the other. For pages of the sizes
  100, 100 and 37 there are 3 requests and 237 records; for 10 full pages there are 10
  requests, none for page 11, and 1000 records.
\<close>

theorem contributor_pages_in_order:
  assumes o: "trim owner \<noteq> []" and r: "trim repo \<noteq> []"
  shows
   "((\<forall>i. fetchApi (Contributors owner repo perPage i) = Inr (pageAt i)) \<longrightarrow>
       (\<exists>k. 1 \<le> k \<and> k \<le> 10 \<and>
            (\<forall>i. 1 \<le> i \<and> i < k \<longrightarrow> perPage \<le> length (pageAt i)) \<and>
            (k = 10 \<or> length (pageAt k) < perPage) \<and>
            fetchPages fetchApi owner (Some repo) 1 []
              = (Inr (concat (map pageAt [1..<Suc k])),
                 map (\<lambda>i. Contributors owner repo perPage i) [1..<Suc k]))) \<and>
    (map length pages3 = [100, 100, 37] \<longrightarrow>
       fetchPages (servePages pages3) owner (Some repo) 1 []
         = (Inr (concat pages3), map (\<lambda>i. Contributors owner repo perPage i) [1, 2, 3]) \<and>
       length (concat pages3) = 237) \<and>
    (10 \<le> length pages10 \<and> (\<forall>pg \<in> set (take 10 pages10). length pg = 100) \<longrightarrow>
       fetchPages (servePages pages10) owner (Some repo) 1 []
         = (Inr (concat (take 10 pages10)), map (\<lambda>i. Contributors owner repo perPage i) [1..<11]) \<and>
       length (concat (take 10 pages10)) = 1000)"
proof (intro conjI impI)
  assume "\<forall>i. fetchApi (Contributors owner repo perPage i) = Inr (pageAt i)"
  then have srv: "\<And>i. fetchApi (Contributors owner repo perPage i) = Inr (pageAt i)" by simp
  from fetchPages_pages [where fetchApi = fetchApi and pageAt = pageAt and page = 1 and acc = "[]", OF o r srv]
  show "\<exists>k. 1 \<le> k \<and> k \<le> 10 \<and>
            (\<forall>i. 1 \<le> i \<and> i < k \<longrightarrow> perPage \<le> length (pageAt i)) \<and>
            (k = 10 \<or> length (pageAt k) < perPage) \<and>
            fetchPages fetchApi owner (Some repo) 1 []
              = (Inr (concat (map pageAt [1..<Suc k])),
                 map (\<lambda>i. Contributors owner repo perPage i) [1..<Suc k])"
    by simp
next
  assume s: "map length pages3 = [100, 100, 37]"
  then show "fetchPages (servePages pages3) owner (Some repo) 1 []
         = (Inr (concat pages3), map (\<lambda>i. Contributors owner repo perPage i) [1, 2, 3])"
    by (rule fetchPages_three [OF o r])
  from s show "length (concat pages3) = 237" by (simp add: length_concat)
next
  assume "10 \<le> length pages10 \<and> (\<forall>pg \<in> set (take 10 pages10). length pg = 100)"
  then have a: "10 \<le> length pages10" and b: "\<forall>pg \<in> set (take 10 pages10). length pg = 100" by simp_all
  from fetchPages_ten [OF o r a b]
  show "fetchPages (servePages pages10) owner (Some repo) 1 []
         = (Inr (concat (take 10 pages10)), map (\<lambda>i. Contributors owner repo perPage i) [1..<11])"
    and "length (concat (take 10 pages10)) = 1000" by simp_all
qed

theorem contributor_pages_in_order_witness:
  "trim ''octocat'' \<noteq> [] \<and> trim ''hello'' \<noteq> [] \<and>
   map length samplePages3 = [100, 100, 37] \<and>
   fetchPages (servePages samplePages3) ''octocat'' (Some ''hello'') 1 []
     = (Inr (concat samplePages3), map (\<lambda>i. Contributors ''octocat'' ''hello'' perPage i) [1, 2, 3]) \<and>
   length (concat samplePages3) = 237 \<and>
   10 \<le> length samplePages11 \<and>
   list_all (\<lambda>pg. length pg = 100) (take 10 samplePages11) \<and>
   fetchPages (servePages samplePages11) ''octocat'' (Some ''hello'') 1 []
     = (Inr (concat (take 10 samplePages11)), map (\<lambda>i. Contributors ''octocat'' ''hello'' perPage i) [1..<11]) \<and>
   length (concat (take 10 samplePages11)) = 1000 \<and>
   (\<exists>k. 1 \<le> k \<and> k \<le> 10 \<and>
        (\<forall>i. 1 \<le> i \<and> i < k \<longrightarrow> perPage \<le> length (pageOf samplePages3 i)) \<and>
        (k = 10 \<or> length (pageOf samplePages3 k) < perPage) \<and>
        fetchPages (servePages samplePages3) ''octocat'' (Some ''hello'') 1 []
          = (Inr (concat (map (pageOf samplePages3) [1..<Suc k])),
             map (\<lambda>i. Contributors ''octocat'' ''hello'' perPage i) [1..<Suc k]))"
proof -
  have o: "trim ''octocat'' \<noteq> []" and r: "trim ''hello'' \<noteq> []" by code_simp+
  have sizes: "map length samplePages3 = [100, 100, 37]" by code_simp
  have len: "10 \<le> length samplePages11" by (simp add: samplePages11_def)
  have full: "list_all (\<lambda>pg. length pg = 100) (take 10 samplePages11)" by code_simp
  then have full': "\<forall>pg \<in> set (take 10 samplePages11). length pg = 100" by (simp only: list_all_iff)
  have srv: "\<forall>i. servePages samplePages3 (Contributors ''octocat'' ''hello'' perPage i) = Inr (pageOf samplePages3 i)"
    by (simp add: servePages_def pageOf_def)
  from contributor_pages_in_order [OF o r, of "servePages samplePages3" "pageOf samplePages3" samplePages3 samplePages11]
    srv sizes len full'
  have "(\<exists>k. 1 \<le> k \<and> k \<le> 10 \<and>
        (\<forall>i. 1 \<le> i \<and> i < k \<longrightarrow> perPage \<le> length (pageOf samplePages3 i)) \<and>
        (k = 10 \<or> length (pageOf samplePages3 k) < perPage) \<and>
        fetchPages (servePages samplePages3) ''octocat'' (Some ''hello'') 1 []
          = (Inr (concat (map (pageOf samplePages3) [1..<Suc k])),
             map (\<lambda>i. Contributors ''octocat'' ''hello'' perPage i) [1..<Suc k]))"
    and "fetchPages (servePages samplePages3) ''octocat'' (Some ''hello'') 1 []
     = (Inr (concat samplePages3), map (\<lambda>i. Contributors ''octocat'' ''hello'' perPage i) [1, 2, 3])"
    and "length (concat samplePages3) = 237"
    and "fetchPages (servePages samplePages11) ''octocat'' (Some ''hello'') 1 []
     = (Inr (concat (take 10 samplePages11)), map (\<lambda>i. Contributors ''octocat'' ''hello'' perPage i) [1..<11])"
    and "length (concat (take 10 samplePages11)) = 1000"
    by blast+
  with o r sizes len full show ?thesis by (intro conjI)
qed

text \<open>
  Claim C2 says that the merged contributors hold no two records with the same identity
  key. The loop only appends: with a first page of 100 contributors and a second page
  that repeats the first of them, the result has 101 records, and the first and the last
  have the same key.
\<close>

theorem contributors_not_deduplicated_counterexample:
  "fetchPages (servePages [map contributorNo [1..100], [contributorNo 1]]) ''octocat'' (Some ''hello'') 1 []
     = (Inr (map contributorNo [1..100] @ [contributorNo 1]),
        [Contributors ''octocat'' ''hello'' 100 1, Contributors ''octocat'' ''hello'' 100 2]) \<and>
   contributorKey ((map contributorNo [1..100] @ [contributorNo 1]) ! 0) = Some (NumKey 1) \<and>
   contributorKey ((map contributorNo [1..100] @ [contributorNo 1]) ! 100) = Some (NumKey 1) \<and>
   \<not> distinct (map contributorKey (map contributorNo [1..100] @ [contributorNo 1]))"
  by code_simp

text \<open>
  Claim C2, amended. The merged contributors are the pages received, one after the other
  in the order of the requests; no record is removed, so two records with the same identity
  key both stay.
\<close>

theorem merged_is_concatenation:
  "fetchPages fetchApi owner repo 1 [] = (Inr allContributors, sent) \<longrightarrow>
     allContributors = received fetchApi sent"
  using fetchPages_received [of fetchApi owner repo 1 "[]" allContributors sent] by simp

theorem merged_is_concatenation_witness:
  "fetchPages (servePages [map contributorNo [1..100], [contributorNo 1]]) ''octocat'' (Some ''hello'') 1 []
     = (Inr (map contributorNo [1..100] @ [contributorNo 1]),
        [Contributors ''octocat'' ''hello'' 100 1, Contributors ''octocat'' ''hello'' 100 2]) \<and>
   map contributorNo [1..100] @ [contributorNo 1]
     = received (servePages [map contributorNo [1..100], [contributorNo 1]])
         [Contributors ''octocat'' ''hello'' 100 1, Contributors ''octocat'' ''hello'' 100 2]"
proof -
  have run: "fetchPages (servePages [map contributorNo [1..100], [contributorNo 1]]) ''octocat'' (Some ''hello'') 1 []
     = (Inr (map contributorNo [1..100] @ [contributorNo 1]),
        [Contributors ''octocat'' ''hello'' 100 1, Contributors ''octocat'' ''hello'' 100 2])"
    by code_simp
  with merged_is_concatenation [of "servePages [map contributorNo [1..100], [contributorNo 1]]"
      "''octocat''" "Some ''hello''" "map contributorNo [1..100] @ [contributorNo 1]"
      "[Contributors ''octocat'' ''hello'' 100 1, Contributors ''octocat'' ''hello'' 100 2]"]
  show ?thesis by blast
qed

section \<open>Failures\<close>










section \<open>Responses that arrive late\<close>










end
